theory Spec2Isabelle
  imports Complex_Main "HOL-Library.Multiset"
begin

section \<open>Types (types.ts)\<close>

datatype GameStatus = LOADING | IDLE | PLAYING | GAME_OVER | VICTORY

text \<open>\<^verbatim>\<open>type HandType = 'left' | 'right'\<close>\<close>

datatype HandType = Left | Right

datatype CutDirection = UP | DOWN | LEFT | RIGHT | ANY

text \<open>
  \<^verbatim>\<open>interface NoteData\<close>. The optional fields \<^verbatim>\<open>hit?\<close> and \<^verbatim>\<open>missed?\<close> are only ever
  tested for truthiness, so an absent field is \<open>False\<close>; an absent \<^verbatim>\<open>hitTime?\<close> is \<open>None\<close>.
  JavaScript numbers are modelled as reals where they hold times and positions and as
  naturals where they hold array indices.
\<close>

record NoteData =
  n_id :: string
  n_time :: real
  lineIndex :: nat
  lineLayer :: nat
  n_type :: HandType
  cutDirection :: CutDirection
  n_text :: string
  isCorrect :: bool
  n_instruction :: string
  hit :: bool
  missed :: bool
  hitTime :: "real option"

section \<open>Constants and chart generation (constants.ts)\<close>

definition SPAWN_Z :: real where "SPAWN_Z = -35"
definition PLAYER_Z :: real where "PLAYER_Z = 0"
definition MISS_Z :: real where "MISS_Z = 5"
definition NOTE_SPEED :: real where "NOTE_SPEED = 8"
definition LANE_WIDTH :: real where "LANE_WIDTH = 12 / 10"

definition LANE_X_POSITIONS :: "real list" where
  "LANE_X_POSITIONS =
     [- (15 / 10) * LANE_WIDTH, - (5 / 10) * LANE_WIDTH, (5 / 10) * LANE_WIDTH, (15 / 10) * LANE_WIDTH]"

definition LAYER_Y_POSITIONS :: "real list" where
  "LAYER_Y_POSITIONS = [1, 18 / 10, 26 / 10]"

definition SONG_BPM :: real where "SONG_BPM = 140"
definition BEAT_TIME :: real where "BEAT_TIME = 60 / SONG_BPM"

record QuestionSet =
  q_instruction :: string
  correct :: string
  distractors :: "string list"

definition PHRASE_CURRICULUM :: "QuestionSet list" where
  "PHRASE_CURRICULUM = [
     \<lparr>q_instruction = ''Yesterday, I ___ to the store.'', correct = ''WENT'', distractors = [''GO'', ''GONE'', ''GOING'']\<rparr>,
     \<lparr>q_instruction = ''She ___ a beautiful song.'', correct = ''SANG'', distractors = [''SING'', ''SUNG'', ''SINGED'']\<rparr>,
     \<lparr>q_instruction = ''We have ___ the game!'', correct = ''WON'', distractors = [''WIN'', ''WINNED'', ''WAN'']\<rparr>,
     \<lparr>q_instruction = ''The sun ___ in the East.'', correct = ''RISES'', distractors = [''ROSE'', ''RISE'', ''RISING'']\<rparr>,
     \<lparr>q_instruction = ''I am ___ a book right now.'', correct = ''READING'', distractors = [''READ'', ''READS'', ''RED'']\<rparr>,
     \<lparr>q_instruction = ''They ___ pizza last night.'', correct = ''ATE'', distractors = [''EAT'', ''EATED'', ''EATING'']\<rparr>,
     \<lparr>q_instruction = ''He ___ his keys yesterday.'', correct = ''LOST'', distractors = [''LOSE'', ''LOSES'', ''LOSED'']\<rparr>,
     \<lparr>q_instruction = ''My dog ___ very fast.'', correct = ''RUNS'', distractors = [''RUN'', ''RAN'', ''RUNNING'']\<rparr>,
     \<lparr>q_instruction = ''We ___ happy to see you.'', correct = ''ARE'', distractors = [''IS'', ''AM'', ''BE'']\<rparr>,
     \<lparr>q_instruction = ''She ___ English well.'', correct = ''SPEAKS'', distractors = [''SPEAK'', ''SPOKE'', ''SPOKEN'']\<rparr>,
     \<lparr>q_instruction = ''I ___ my homework already.'', correct = ''DID'', distractors = [''DO'', ''DONE'', ''DOES'']\<rparr>,
     \<lparr>q_instruction = ''It ___ heavily last winter.'', correct = ''SNOWED'', distractors = [''SNOW'', ''SNOWS'', ''SNOWING'']\<rparr>,
     \<lparr>q_instruction = ''Opposite of: HAPPY'', correct = ''SAD'', distractors = [''GLAD'', ''JOY'', ''FUN'']\<rparr>,
     \<lparr>q_instruction = ''Plural of: CHILD'', correct = ''CHILDREN'', distractors = [''CHILDS'', ''KIDS'', ''BABY'']\<rparr>,
     \<lparr>q_instruction = ''Past of: BUY'', correct = ''BOUGHT'', distractors = [''BUYED'', ''BUYS'', ''BUYING'']\<rparr>]"

text \<open>Decimal rendering of a counter, for the template string \<^verbatim>\<open>`note-${idCount++}`\<close>.\<close>

fun string_of_nat :: "nat \<Rightarrow> string" where
  "string_of_nat n =
     (if n < 10 then [char_of (48 + n)]
      else string_of_nat (n div 10) @ [char_of (48 + n mod 10)])"

declare string_of_nat.simps [simp del]

definition note_id :: "nat \<Rightarrow> string" where
  "note_id idCount = ''note-'' @ string_of_nat idCount"

text \<open>
  The object literal pushed for the correct answer of question \<open>q\<close>; \<open>lanes\<close> is the
  shuffled lane array and \<open>t\<close> the arrival time.
\<close>

definition correct_note :: "QuestionSet \<Rightarrow> nat list \<Rightarrow> real \<Rightarrow> nat \<Rightarrow> NoteData" where
  "correct_note q lanes t idCount =
     \<lparr>n_id = note_id idCount, n_time = t, lineIndex = lanes ! 0, lineLayer = 0,
      n_type = (if lanes ! 0 < 2 then Left else Right), cutDirection = ANY,
      n_text = correct q, isCorrect = True, n_instruction = q_instruction q,
      hit = False, missed = False, hitTime = None\<rparr>"

text \<open>The object literal pushed for distractor \<open>i\<close> of question \<open>q\<close>.\<close>

definition distractor_note :: "QuestionSet \<Rightarrow> nat list \<Rightarrow> real \<Rightarrow> nat \<Rightarrow> nat \<Rightarrow> NoteData" where
  "distractor_note q lanes t idCount i =
     \<lparr>n_id = note_id idCount, n_time = t, lineIndex = lanes ! (i + 1),
      lineLayer = (if i mod 2 = 0 then 1 else 0),
      n_type = (if lanes ! (i + 1) < 2 then Left else Right), cutDirection = ANY,
      n_text = distractors q ! i, isCorrect = False, n_instruction = q_instruction q,
      hit = False, missed = False, hitTime = None\<rparr>"

text \<open>
  \<^verbatim>\<open>for (let i = 0; i < numDistractors; i++) { if (i >= q.distractors.length) break; notes.push(...) }\<close>
  The state threaded through the loop is the array \<open>notes\<close> and the counter \<open>idCount\<close>.
\<close>

function distractor_loop ::
  "QuestionSet \<Rightarrow> nat list \<Rightarrow> real \<Rightarrow> int \<Rightarrow> nat \<Rightarrow> NoteData list \<times> nat \<Rightarrow> NoteData list \<times> nat" where
  "distractor_loop q lanes t numDistractors i (notes, idCount) =
     (if int i < numDistractors then
        (if i \<ge> length (distractors q) then (notes, idCount)
         else distractor_loop q lanes t numDistractors (i + 1)
                (notes @ [distractor_note q lanes t idCount i], idCount + 1))
      else (notes, idCount))"
  by pat_completeness auto
termination
  by (relation "measure (\<lambda>(q, lanes, t, numDistractors, i, st). nat (numDistractors - int i))") auto

declare distractor_loop.simps [simp del]

text \<open>
  The body of \<^verbatim>\<open>PHRASE_CURRICULUM.forEach((q) => ...)\<close>. The generator state is
  \<open>(notes, idCount, currentBeat)\<close>. \<open>lanes\<close> is the value of
  \<^verbatim>\<open>[0, 1, 2, 3].sort(() => Math.random() - 0.5)\<close> in this iteration: the source draws it
  from the ambient \<^verbatim>\<open>Math.random\<close>, the model takes it as an input.
\<close>

definition question_body ::
  "real \<Rightarrow> nat list \<Rightarrow> QuestionSet \<Rightarrow> NoteData list \<times> nat \<times> real \<Rightarrow> NoteData list \<times> nat \<times> real" where
  "question_body difficultyMultiplier lanes q st =
     (case st of (notes, idCount, currentBeat) \<Rightarrow>
        let t = currentBeat * BEAT_TIME;
            notes1 = notes @ [correct_note q lanes t idCount];
            idCount1 = idCount + 1;
            numDistractors = min 3 (1 + \<lfloor>difficultyMultiplier\<rfloor>);
            (notes2, idCount2) = distractor_loop q lanes t numDistractors 0 (notes1, idCount1)
        in (notes2, idCount2, currentBeat + 10))"

text \<open>
  \<^verbatim>\<open>forEach\<close> over the curriculum, in order. \<open>shuffled k\<close> is the lane array drawn in the
  \<open>k\<close>-th iteration; \<open>k\<close> counts the iterations already done.
\<close>

fun forEach_question ::
  "real \<Rightarrow> (nat \<Rightarrow> nat list) \<Rightarrow> nat \<Rightarrow> QuestionSet list \<Rightarrow> NoteData list \<times> nat \<times> real
     \<Rightarrow> NoteData list \<times> nat \<times> real" where
  "forEach_question d shuffled k [] st = st"
| "forEach_question d shuffled k (q # qs) st =
     forEach_question d shuffled (k + 1) qs (question_body d (shuffled k) q st)"

text \<open>
  The body of \<^verbatim>\<open>generateDemoChart\<close> with the curriculum as a parameter. The final
  \<^verbatim>\<open>notes.sort((a, b) => a.time - b.time)\<close> is a stable sort on the arrival time.
\<close>

definition generateChartFrom :: "QuestionSet list \<Rightarrow> (nat \<Rightarrow> nat list) \<Rightarrow> real \<Rightarrow> NoteData list" where
  "generateChartFrom curriculum shuffled difficultyMultiplier =
     (case forEach_question difficultyMultiplier shuffled 0 curriculum ([], 0, 8) of
        (notes, idCount, currentBeat) \<Rightarrow> sort_key n_time notes)"

definition generateDemoChart :: "(nat \<Rightarrow> nat list) \<Rightarrow> real \<Rightarrow> NoteData list" where
  "generateDemoChart shuffled difficultyMultiplier =
     generateChartFrom PHRASE_CURRICULUM shuffled difficultyMultiplier"

text \<open>
  What \<^verbatim>\<open>Array.prototype.sort\<close> returns for \<^verbatim>\<open>[0, 1, 2, 3]\<close> whatever the comparator
  answers: the same four elements in some order.
\<close>

definition is_shuffle :: "nat list \<Rightarrow> bool" where
  "is_shuffle lanes = (sort lanes = [0, 1, 2, 3])"


section \<open>Scoring and session state (App.tsx)\<close>

text \<open>
  The React state of \<^verbatim>\<open>App\<close>: one field per \<^verbatim>\<open>useState\<close> the game logic writes.
  \<open>timeouts\<close> is the queue of callbacks scheduled with \<^verbatim>\<open>setTimeout(() => endGame(v), 0)\<close>
  and not yet run; each entry is the argument \<open>v\<close>.
\<close>

record App =
  score :: int
  combo :: int
  multiplier :: int
  health :: int
  gameStatus :: GameStatus
  instruction :: string
  chart :: "NoteData list"
  timeouts :: "bool list"

text \<open>
  \<^verbatim>\<open>endGame\<close>: pausing the audio and cancelling speech act on collaborators outside the
  state and are not modelled.
\<close>

definition endGame :: "bool \<Rightarrow> App \<Rightarrow> App" where
  "endGame victory app = app\<lparr>gameStatus := (if victory then VICTORY else GAME_OVER)\<rparr>"

text \<open>
  \<^verbatim>\<open>handleNoteHit\<close> is built by \<^verbatim>\<open>useCallback(..., [multiplier])\<close>: the \<^verbatim>\<open>multiplier\<close> read in
  \<^verbatim>\<open>setScore(s => s + (100 * multiplier))\<close> is the value of the render that built the
  callback, the parameter \<open>m\<close> here. All other reads go through updater functions and see
  the current state.
\<close>

definition handleNoteHit :: "int \<Rightarrow> NoteData \<Rightarrow> bool \<Rightarrow> App \<Rightarrow> App" where
  "handleNoteHit m note goodCut app =
     (if goodCut \<and> isCorrect note then
        (let newCombo = combo app + 1;
             app1 = app\<lparr>combo := newCombo,
                        multiplier := (if newCombo > 10 then 4 else if newCombo > 5 then 2 else 1)\<rparr>;
             app2 = app1\<lparr>score := score app1 + 100 * m\<rparr>
         in app2\<lparr>health := min 100 (health app2 + 5)\<rparr>)
      else
        (let app1 = app\<lparr>combo := 0, multiplier := 1\<rparr>;
             newHealth = health app1 - 10
         in if newHealth \<le> 0 then app1\<lparr>health := 0, timeouts := timeouts app1 @ [False]\<rparr>
            else app1\<lparr>health := newHealth\<rparr>))"

definition handleNoteMiss :: "NoteData \<Rightarrow> App \<Rightarrow> App" where
  "handleNoteMiss note app =
     (if isCorrect note then
        (let app1 = app\<lparr>combo := 0, multiplier := 1\<rparr>;
             newHealth = health app1 - 15
         in if newHealth \<le> 0 then app1\<lparr>health := 0, timeouts := timeouts app1 @ [False]\<rparr>
            else app1\<lparr>health := newHealth\<rparr>)
      else app)"

text \<open>
  \<^verbatim>\<open>startGame\<close>: \<open>newChart\<close> is the value of the call \<^verbatim>\<open>generateDemoChart()\<close> and \<open>playOk\<close>
  says whether \<^verbatim>\<open>await audioRef.current.play()\<close> resolved (otherwise the \<^verbatim>\<open>catch\<close> branch
  runs and the status is left as it is).
\<close>

definition startGame :: "bool \<Rightarrow> bool \<Rightarrow> NoteData list \<Rightarrow> App \<Rightarrow> App" where
  "startGame isCameraReady playOk newChart app =
     (if \<not> isCameraReady then app
      else
        (let app1 = app\<lparr>chart := newChart, score := 0, combo := 0, multiplier := 1, health := 100,
                        instruction := ''Get Ready...''\<rparr>
         in if playOk then app1\<lparr>gameStatus := PLAYING\<rparr> else app1))"

text \<open>The oldest pending timer callback runs.\<close>

definition fire_timeout :: "App \<Rightarrow> App" where
  "fire_timeout app =
     (case timeouts app of [] \<Rightarrow> app | v # vs \<Rightarrow> endGame v (app\<lparr>timeouts := vs\<rparr>))"

text \<open>All pending timer callbacks run, oldest first.\<close>

definition run_timeouts :: "App \<Rightarrow> App" where
  "run_timeouts app = fold endGame (timeouts app) (app\<lparr>timeouts := []\<rparr>)"

section \<open>The frame loop (components/GameScene.tsx)\<close>

datatype Vector3 = Vector3 (vx: real) (vy: real) (vz: real)

text \<open>\<^verbatim>\<open>THREE.Vector3.distanceTo\<close> and \<^verbatim>\<open>THREE.Vector3.length\<close>, over the reals.\<close>

definition distanceTo :: "Vector3 \<Rightarrow> Vector3 \<Rightarrow> real" where
  "distanceTo a b = sqrt ((vx a - vx b)\<^sup>2 + (vy a - vy b)\<^sup>2 + (vz a - vz b)\<^sup>2)"

definition vlength :: "Vector3 \<Rightarrow> real" where
  "vlength v = sqrt ((vx v)\<^sup>2 + (vy v)\<^sup>2 + (vz v)\<^sup>2)"

text \<open>\<^verbatim>\<open>interface HandPositions\<close>: \<^verbatim>\<open>null\<close> is \<open>None\<close>.\<close>

record HandPositions =
  left :: "Vector3 option"
  right :: "Vector3 option"
  leftVelocity :: Vector3
  rightVelocity :: Vector3

text \<open>
  The mutable state of \<^verbatim>\<open>GameScene\<close>. \<open>notesState\<close> holds the note objects of the chart.
  \<^verbatim>\<open>activeNotesRef.current\<close> holds references to those same objects, so it is a list of
  positions in \<open>notesState\<close>: a write to \<^verbatim>\<open>note.hit\<close> or \<^verbatim>\<open>note.missed\<close> through an active
  reference is a write to the chart's object.
\<close>

record Scene =
  notesState :: "NoteData list"
  activeNotes :: "nat list"
  nextNoteIndex :: nat

type_synonym World = "Scene \<times> App"

definition spawnAheadTime :: real where
  "spawnAheadTime = \<bar>SPAWN_Z - PLAYER_Z\<bar> / NOTE_SPEED"

text \<open>\<^verbatim>\<open>while (nextNoteIndexRef.current < notesState.length) { ... }\<close>\<close>

function spawn_loop :: "real \<Rightarrow> Scene \<Rightarrow> Scene" where
  "spawn_loop t sc =
     (if nextNoteIndex sc < length (notesState sc) then
        (let nextNote = notesState sc ! nextNoteIndex sc in
         if n_time nextNote - spawnAheadTime \<le> t then
           spawn_loop t (sc\<lparr>activeNotes := activeNotes sc @ [nextNoteIndex sc],
                            nextNoteIndex := nextNoteIndex sc + 1\<rparr>)
         else sc)
      else sc)"
  by pat_completeness auto
termination
  by (relation "measure (\<lambda>(t, sc). length (notesState sc) - nextNoteIndex sc)") auto

declare spawn_loop.simps [simp del]

text \<open>
  The instruction shown is that of the first active note that is neither hit nor missed.
\<close>

definition update_instruction :: "Scene \<Rightarrow> App \<Rightarrow> App" where
  "update_instruction sc app =
     (if length (activeNotes sc) > 0 then
        (let incoming = filter (\<lambda>n. \<not> hit n \<and> \<not> missed n) (map (\<lambda>k. notesState sc ! k) (activeNotes sc)) in
         if length incoming > 0 then app\<lparr>instruction := n_instruction (incoming ! 0)\<rparr> else app)
      else app)"

text \<open>\<^verbatim>\<open>array.splice(i, 1)\<close>\<close>

definition splice1 :: "nat \<Rightarrow> 'a list \<Rightarrow> 'a list" where
  "splice1 i xs = take i xs @ drop (Suc i) xs"

text \<open>
  A read \<^verbatim>\<open>xs[i]\<close> of a number array: out of range it gives \<^verbatim>\<open>undefined\<close>, here \<open>None\<close>.
\<close>

definition lookup :: "real list \<Rightarrow> nat \<Rightarrow> real option" where
  "lookup xs i = (if i < length xs then Some (xs ! i) else None)"

text \<open>
  One iteration of \<^verbatim>\<open>for (let i = activeNotesRef.current.length - 1; i >= 0; i--)\<close>, at index
  \<open>i\<close>. \<open>t\<close> is \<^verbatim>\<open>audioRef.current.currentTime\<close>, \<open>m\<close> the multiplier closed over by
  \<^verbatim>\<open>onNoteHit\<close>. Returning the world unchanged is \<^verbatim>\<open>continue\<close> or falling through.
  When a coordinate lookup is out of range the position holds \<^verbatim>\<open>undefined\<close>, the
  distance is \<^verbatim>\<open>NaN\<close> and the comparison with the radius is false.
\<close>

definition collide_note :: "real \<Rightarrow> HandPositions \<Rightarrow> int \<Rightarrow> nat \<Rightarrow> World \<Rightarrow> World" where
  "collide_note t hands m i w =
     (case w of (sc, app) \<Rightarrow>
        let k = activeNotes sc ! i;
            note = notesState sc ! k
        in if hit note \<or> missed note then w
           else
             let timeDiff = n_time note - t;
                 currentZ = PLAYER_Z - timeDiff * NOTE_SPEED
             in if currentZ > MISS_Z then
                  (let note' = note\<lparr>missed := True\<rparr> in
                   (sc\<lparr>notesState := (notesState sc)[k := note'],
                       activeNotes := splice1 i (activeNotes sc)\<rparr>,
                    handleNoteMiss note' app))
                else if currentZ > PLAYER_Z - 15 / 10 \<and> currentZ < PLAYER_Z + 1 then
                  (let handPos = (if n_type note = Left then left hands else right hands);
                       handVel = (if n_type note = Left then leftVelocity hands else rightVelocity hands)
                   in case handPos of
                        None \<Rightarrow> w
                      | Some hp \<Rightarrow>
                          (case (lookup LANE_X_POSITIONS (lineIndex note),
                                 lookup LAYER_Y_POSITIONS (lineLayer note)) of
                             (Some px, Some py) \<Rightarrow>
                               (let notePos = Vector3 px py currentZ in
                                if distanceTo hp notePos < 1 then
                                  (let speed = vlength handVel in
                                   if speed < 5 / 10 then w
                                   else
                                     (let goodCut = (if \<not> isCorrect note then False else True);
                                          note' = note\<lparr>hit := True, hitTime := Some t\<rparr>
                                      in (sc\<lparr>notesState := (notesState sc)[k := note'],
                                             activeNotes := splice1 i (activeNotes sc)\<rparr>,
                                          handleNoteHit m note' goodCut app)))
                                else w)
                           | _ \<Rightarrow> w))
                else w)"

text \<open>The loop itself: \<open>collide_loop t hands m n\<close> runs the iterations \<open>i = n - 1, ..., 0\<close>.\<close>

fun collide_loop :: "real \<Rightarrow> HandPositions \<Rightarrow> int \<Rightarrow> nat \<Rightarrow> World \<Rightarrow> World" where
  "collide_loop t hands m 0 w = w"
| "collide_loop t hands m (Suc i) w = collide_loop t hands m i (collide_note t hands m i w)"

text \<open>
  The first \<^verbatim>\<open>useFrame\<close> callback, without the lighting and camera effects. \<open>t\<close> and
  \<open>ended\<close> are \<^verbatim>\<open>audioRef.current.currentTime\<close> and \<^verbatim>\<open>audioRef.current.ended\<close>; \<open>hands\<close> is
  \<^verbatim>\<open>handPositionsRef.current\<close>. \<^verbatim>\<open>gameStatus\<close> and the \<^verbatim>\<open>multiplier\<close> inside \<^verbatim>\<open>onNoteHit\<close>
  are those of the last render, the state the frame starts from.
\<close>

definition useFrame :: "real \<Rightarrow> bool \<Rightarrow> HandPositions \<Rightarrow> World \<Rightarrow> World" where
  "useFrame t ended hands w =
     (case w of (sc, app) \<Rightarrow>
        if gameStatus app \<noteq> PLAYING then w
        else if ended then (sc, endGame True app)
        else
          (let sc1 = spawn_loop t sc;
               app1 = update_instruction sc1 app
           in collide_loop t hands (multiplier app) (length (activeNotes sc1)) (sc1, app1)))"

section \<open>Sessions\<close>

text \<open>
  What can happen to a mounted application: a rendered frame, a pending timer firing, the
  camera becoming ready (\<^verbatim>\<open>LOADING\<close> to \<^verbatim>\<open>IDLE\<close>), the start button (shown only in
  \<^verbatim>\<open>IDLE\<close>) and the return-to-menu button (shown only in \<^verbatim>\<open>GAME_OVER\<close> and \<^verbatim>\<open>VICTORY\<close>).
\<close>

datatype Event =
    Frame real bool HandPositions
  | Timeout
  | CameraReady
  | StartGame bool bool "NoteData list"
  | ReturnToMenu

fun step :: "Event \<Rightarrow> World \<Rightarrow> World" where
  "step (Frame t ended hands) w = useFrame t ended hands w"
| "step Timeout (sc, app) = (sc, fire_timeout app)"
| "step CameraReady (sc, app) =
     (sc, if gameStatus app = LOADING then app\<lparr>gameStatus := IDLE\<rparr> else app)"
| "step (StartGame isCameraReady playOk newChart) (sc, app) =
     (sc, if gameStatus app = IDLE then startGame isCameraReady playOk newChart app else app)"
| "step ReturnToMenu (sc, app) =
     (sc, if gameStatus app = GAME_OVER \<or> gameStatus app = VICTORY then app\<lparr>gameStatus := IDLE\<rparr> else app)"

definition run :: "Event list \<Rightarrow> World \<Rightarrow> World" where
  "run evs w = fold step evs w"

text \<open>
  The state at mount: the \<^verbatim>\<open>useState\<close> initial values of \<^verbatim>\<open>App\<close>, and a \<^verbatim>\<open>GameScene\<close>
  whose \<^verbatim>\<open>notesState\<close> is the chart it is given.
\<close>

definition initial_world :: "NoteData list \<Rightarrow> World" where
  "initial_world chart0 =
     (\<lparr>notesState = chart0, activeNotes = [], nextNoteIndex = 0\<rparr>,
      \<lparr>score = 0, combo = 0, multiplier = 1, health = 100, gameStatus = LOADING,
       instruction = ''Get Ready...'', chart = chart0, timeouts = []\<rparr>)"

section \<open>Auxiliary definitions\<close>

text \<open>
  The number of distractors the loop pushes for question \<open>q\<close>: it stops at
  \<open>numDistractors\<close> or at the end of \<open>q.distractors\<close>, whichever comes first.
\<close>

definition n_distractors :: "real \<Rightarrow> QuestionSet \<Rightarrow> nat" where
  "n_distractors d q = min (nat (min 3 (1 + \<lfloor>d\<rfloor>))) (length (distractors q))"

text \<open>The notes one iteration of \<^verbatim>\<open>forEach\<close> appends, as a list.\<close>

definition q_notes :: "real \<Rightarrow> nat list \<Rightarrow> QuestionSet \<Rightarrow> nat \<Rightarrow> real \<Rightarrow> NoteData list" where
  "q_notes d lanes q idc beat =
     correct_note q lanes (beat * BEAT_TIME) idc #
     map (\<lambda>j. distractor_note q lanes (beat * BEAT_TIME) (idc + 1 + j) j) [0..<n_distractors d q]"

text \<open>The notes all iterations append, in the order of the pushes.\<close>

fun all_notes :: "real \<Rightarrow> (nat \<Rightarrow> nat list) \<Rightarrow> nat \<Rightarrow> QuestionSet list \<Rightarrow> nat \<Rightarrow> real \<Rightarrow> NoteData list" where
  "all_notes d sh k [] idc beat = []"
| "all_notes d sh k (q # qs) idc beat =
     q_notes d (sh k) q idc beat @ all_notes d sh (k + 1) qs (idc + 1 + n_distractors d q) (beat + 10)"

text \<open>Where and when a note arrives: its arrival time and its lane.\<close>

definition slot :: "NoteData \<Rightarrow> real \<times> nat" where
  "slot n = (n_time n, lineIndex n)"

text \<open>The first entry of \<^verbatim>\<open>PHRASE_CURRICULUM\<close>.\<close>

definition WENT_question :: QuestionSet where
  "WENT_question = \<lparr>q_instruction = ''Yesterday, I ___ to the store.'', correct = ''WENT'',
                     distractors = [''GO'', ''GONE'', ''GOING'']\<rparr>"

text \<open>
  What holds of the application state throughout a session. The multiplier is always the
  one the thresholds give for the combo, and health 0 is only ever reached by a penalty,
  which also resets the combo.
\<close>

definition app_inv :: "App \<Rightarrow> bool" where
  "app_inv a = (0 \<le> health a \<and> health a \<le> 100 \<and> 0 \<le> score a \<and> 0 \<le> combo a \<and>
     multiplier a = (if combo a > 10 then 4 else if combo a > 5 then 2 else 1) \<and>
     set (timeouts a) \<subseteq> {False} \<and>
     (health a = 0 \<longrightarrow> combo a = 0))"

text \<open>
  A note as the generator makes it, with the correctness flag as a parameter.
\<close>

definition sample_note :: "bool \<Rightarrow> NoteData" where
  "sample_note c =
     \<lparr>n_id = ''note-0'', n_time = 8 * BEAT_TIME, lineIndex = 0, lineLayer = 0, n_type = Left,
      cutDirection = ANY, n_text = ''WENT'', isCorrect = c,
      n_instruction = ''Yesterday, I ___ to the store.'', hit = False, missed = False, hitTime = None\<rparr>"

text \<open>
  An application state during play with the given score, combo and health and the
  multiplier the combo's thresholds give.
\<close>

definition sample_app :: "int \<Rightarrow> int \<Rightarrow> int \<Rightarrow> App" where
  "sample_app s c h =
     \<lparr>score = s, combo = c, multiplier = (if c > 10 then 4 else if c > 5 then 2 else 1),
      health = h, gameStatus = PLAYING, instruction = ''Get Ready...'', chart = [], timeouts = []\<rparr>"

text \<open>
  A hit of a correct note delivered by a frame that starts from state \<open>a\<close>: the callback
  closes over the multiplier of \<open>a\<close>.
\<close>

definition correct_hit :: "App \<Rightarrow> App" where
  "correct_hit a = handleNoteHit (multiplier a) (sample_note True) True a"

text \<open>
  A note that is neither hit nor missed.
\<close>

definition unresolved :: "NoteData \<Rightarrow> bool" where
  "unresolved n = (\<not> hit n \<and> \<not> missed n)"

text \<open>
  What holds of the scene throughout a session: the active references are distinct, point
  at spawned notes and at unresolved ones only; notes not yet spawned are unresolved; and
  no note is both hit and missed.
\<close>

definition scene_inv :: "Scene \<Rightarrow> bool" where
  "scene_inv sc =
     (nextNoteIndex sc \<le> length (notesState sc) \<and>
      distinct (activeNotes sc) \<and>
      (\<forall>k \<in> set (activeNotes sc). k < nextNoteIndex sc \<and> unresolved (notesState sc ! k)) \<and>
      (\<forall>k. nextNoteIndex sc \<le> k \<and> k < length (notesState sc) \<longrightarrow> unresolved (notesState sc ! k)) \<and>
      (\<forall>k < length (notesState sc). \<not> (hit (notesState sc ! k) \<and> missed (notesState sc ! k))))"

text \<open>
  The write an iteration makes when it resolves the note at active index \<open>i\<close>: the note
  object is replaced by \<open>note'\<close> and its reference is spliced out.
\<close>

definition resolve_at :: "nat \<Rightarrow> NoteData \<Rightarrow> Scene \<Rightarrow> Scene" where
  "resolve_at i note' sc =
     sc\<lparr>notesState := (notesState sc)[activeNotes sc ! i := note'],
         activeNotes := splice1 i (activeNotes sc)\<rparr>"

text \<open>
  What one iteration of the collision loop can do to the scene: nothing, or resolve an
  unresolved note into a note that is hit or missed but not both.
\<close>

definition iteration_outcome :: "Scene \<Rightarrow> nat \<Rightarrow> World \<Rightarrow> bool" where
  "iteration_outcome sc i r =
     (fst r = sc \<or>
      (unresolved (notesState sc ! (activeNotes sc ! i)) \<and>
       (\<exists>note'. hit note' \<noteq> missed note' \<and> fst r = resolve_at i note' sc)))"

text \<open>
  A hand sample in which neither hand is tracked.
\<close>

definition no_hands :: HandPositions where
  "no_hands = \<lparr>left = None, right = None, leftVelocity = Vector3 0 0 0, rightVelocity = Vector3 0 0 0\<rparr>"

text \<open>
  A session on the chart of the first curriculum entry: the camera becomes ready, the game
  starts, and one frame is rendered at playback time 1000, long after every note has
  passed the player.
\<close>

definition demo_world :: World where
  "demo_world = run [CameraReady, StartGame True True [], Frame 1000 False no_hands]
     (initial_world (generateChartFrom [WENT_question] (\<lambda>k. [2, 0, 3, 1]) 1))"

text \<open>
  A scene whose only note, a correct answer in lane 0 and layer 0, is active.
\<close>

definition contact_scene :: Scene where
  "contact_scene = \<lparr>notesState = [sample_note True], activeNotes = [0], nextNoteIndex = 1\<rparr>"

text \<open>
  The left hand 0.3 to the right of lane 0 at the height of layer 0, in the player's
  plane, moving at speed 0.2.
\<close>

definition slow_hands :: HandPositions where
  "slow_hands = \<lparr>left = Some (Vector3 (- (15 / 10)) 1 0), right = None,
                  leftVelocity = Vector3 (2 / 10) 0 0, rightVelocity = Vector3 0 0 0\<rparr>"

text \<open>
  A session on a chart of seven correct notes, all of which pass the player unhit in one
  frame.
\<close>

definition seven_correct_world :: World where
  "seven_correct_world = run [CameraReady, StartGame True True [], Frame 1000 False no_hands]
     (initial_world (replicate 7 (sample_note True)))"

text \<open>
  The left hand between lanes 0 and 1 and between layers 0 and 1, in the player's plane,
  moving at speed 1.
\<close>

definition striking_hands :: HandPositions where
  "striking_hands = \<lparr>left = Some (Vector3 (- (12 / 10)) (14 / 10) 0), right = None,
                      leftVelocity = Vector3 1 0 0, rightVelocity = Vector3 0 0 0\<rparr>"

text \<open>A distractor note in the given lane and layer.\<close>

definition wrong_note :: "nat \<Rightarrow> nat \<Rightarrow> NoteData" where
  "wrong_note lane layer = (sample_note False)\<lparr>lineIndex := lane, lineLayer := layer\<rparr>"

text \<open>
  A scene with two active distractors for the left hand, placed as the generator places
  the first two distractors when the shuffle puts them in lanes 0 and 1.
\<close>

definition two_wrong_scene :: Scene where
  "two_wrong_scene = \<lparr>notesState = [wrong_note 0 1, wrong_note 1 0], activeNotes = [0, 1], nextNoteIndex = 2\<rparr>"


section \<open>Chart generation: properties\<close>

lemma distractor_loop_unfold:
  "distractor_loop q lanes t nd i (ns, idc) =
     (ns @ map (\<lambda>j. distractor_note q lanes t (idc + (j - i)) j)
                [i..<max i (min (nat nd) (length (distractors q)))],
      idc + (max i (min (nat nd) (length (distractors q))) - i))"
proof (induction q lanes t nd i "(ns, idc)" arbitrary: ns idc rule: distractor_loop.induct)
  case (1 q lanes t nd i ns idc)
  let ?k = "min (nat nd) (length (distractors q))"
  show ?case
  proof (cases "int i < nd \<and> i < length (distractors q)")
    case False
    then have "max i ?k = i" by auto
    with False show ?thesis
      by (subst distractor_loop.simps) auto
  next
    case True
    then have k: "max i ?k = ?k" "max (i + 1) ?k = ?k" "i < ?k" by auto
    have "distractor_loop q lanes t nd i (ns, idc) =
          distractor_loop q lanes t nd (i + 1) (ns @ [distractor_note q lanes t idc i], idc + 1)"
      using True by (subst distractor_loop.simps) simp
    also have "\<dots> = ((ns @ [distractor_note q lanes t idc i]) @
          map (\<lambda>j. distractor_note q lanes t (idc + 1 + (j - (i + 1))) j) [i + 1..<?k],
          idc + 1 + (?k - (i + 1)))"
      using "1.hyps" True k by simp
    also have "map (\<lambda>j. distractor_note q lanes t (idc + 1 + (j - (i + 1))) j) [i + 1..<?k]
             = map (\<lambda>j. distractor_note q lanes t (idc + (j - i)) j) [i + 1..<?k]"
    proof (rule map_cong)
      fix x assume "x \<in> set [i + 1..<?k]"
      then have "idc + 1 + (x - (i + 1)) = idc + (x - i)" by auto
      then show "distractor_note q lanes t (idc + 1 + (x - (i + 1))) x =
                 distractor_note q lanes t (idc + (x - i)) x" by (simp only:)
    qed simp
    finally show ?thesis
      using k by (auto simp add: upt_conv_Cons)
  qed
qed

lemma question_body_unfold:
  "question_body d lanes q (notes, idc, beat) =
     (notes @ q_notes d lanes q idc beat, idc + 1 + n_distractors d q, beat + 10)"
  by (simp add: question_body_def distractor_loop_unfold q_notes_def n_distractors_def Let_def)

lemma forEach_question_unfold:
  "fst (forEach_question d sh k qs (ns, idc, beat)) = ns @ all_notes d sh k qs idc beat"
  by (induction qs arbitrary: k ns idc beat) (simp_all add: question_body_unfold)

lemma generateChartFrom_unfold:
  "generateChartFrom cur sh d = sort_key n_time (all_notes d sh 0 cur 0 8)"
  using forEach_question_unfold[of d sh 0 cur "[]" 0 8]
  by (auto simp add: generateChartFrom_def split: prod.splits)

lemma n_distractors_le: "n_distractors d q \<le> 3"
  by (simp add: n_distractors_def)

lemma is_shuffle_facts:
  assumes "is_shuffle lanes"
  shows "length lanes = 4" "distinct lanes" "set lanes = {0, 1, 2, 3}"
proof -
  have s: "sort lanes = [0, 1, 2, 3]" using assms by (simp add: is_shuffle_def)
  have "length (sort lanes) = 4" by (simp add: s)
  then show "length lanes = 4" by simp
  have "distinct (sort lanes)" by (simp add: s)
  then show "distinct lanes" by simp
  have "set (sort lanes) = {0, 1, 2, 3}" by (simp add: s)
  then show "set lanes = {0, 1, 2, 3}" by simp
qed

lemma map_lineIndex_q_notes:
  "map lineIndex (q_notes d lanes q idc beat) = map (\<lambda>j. lanes ! j) [0..<Suc (n_distractors d q)]"
proof -
  have "map (\<lambda>j. lanes ! j) [0..<Suc (n_distractors d q)]
      = lanes ! 0 # map (\<lambda>j. lanes ! j) (map Suc [0..<n_distractors d q])"
    by (simp only: upt_conv_Cons[of 0] map_Suc_upt[symmetric] list.map)
  then show ?thesis
    by (simp add: q_notes_def correct_note_def distractor_note_def comp_def)
qed

lemma q_notes_lanes_distinct:
  assumes "is_shuffle lanes"
  shows "distinct (map lineIndex (q_notes d lanes q idc beat))"
proof -
  have "Suc (n_distractors d q) \<le> length lanes"
    using is_shuffle_facts(1)[OF assms] n_distractors_le[of d q] by simp
  then have "map (\<lambda>j. lanes ! j) [0..<Suc (n_distractors d q)] = take (Suc (n_distractors d q)) lanes"
    by (metis map_nth take_map take_upt add_0)
  then show ?thesis
    using is_shuffle_facts(2)[OF assms] by (simp add: map_lineIndex_q_notes)
qed

lemma q_notes_bounds:
  assumes "is_shuffle lanes" "n \<in> set (q_notes d lanes q idc beat)"
  shows "lineIndex n < 4 \<and> lineLayer n < 2"
proof -
  have "lineIndex n \<in> set (map (\<lambda>j. lanes ! j) [0..<Suc (n_distractors d q)])"
    using assms(2) map_lineIndex_q_notes[of d lanes q idc beat] by (metis image_eqI list.set_map)
  then obtain j where "j \<in> set [0..<Suc (n_distractors d q)]" "lineIndex n = lanes ! j"
    unfolding set_map by blast
  then have "j < Suc (n_distractors d q)" "lineIndex n = lanes ! j" by auto
  moreover have "Suc (n_distractors d q) \<le> length lanes"
    using is_shuffle_facts(1)[OF assms(1)] n_distractors_le[of d q] by simp
  ultimately have "lineIndex n \<in> set lanes" by simp
  then have "lineIndex n < 4" using is_shuffle_facts(3)[OF assms(1)] by auto
  moreover have "lineLayer n < 2"
    using assms(2) by (auto simp: q_notes_def correct_note_def distractor_note_def)
  ultimately show ?thesis by simp
qed

lemma length_q_notes: "length (q_notes d lanes q idc beat) = Suc (n_distractors d q)"
  by (simp add: q_notes_def)

lemma q_notes_time: "n \<in> set (q_notes d lanes q idc beat) \<Longrightarrow> n_time n = beat * BEAT_TIME"
  by (auto simp: q_notes_def correct_note_def distractor_note_def)

lemma q_notes_unresolved: "n \<in> set (q_notes d lanes q idc beat) \<Longrightarrow> \<not> hit n \<and> \<not> missed n"
  by (auto simp: q_notes_def correct_note_def distractor_note_def)

lemma BEAT_TIME_pos: "0 < BEAT_TIME"
  by (simp add: BEAT_TIME_def SONG_BPM_def)

lemma all_notes_bounds:
  "(\<And>j. j < length qs \<Longrightarrow> is_shuffle (sh (k + j))) \<Longrightarrow> n \<in> set (all_notes d sh k qs idc beat)
     \<Longrightarrow> lineIndex n < 4 \<and> lineLayer n < 2"
proof (induction qs arbitrary: k idc beat)
  case Nil
  then show ?case by simp
next
  case (Cons q qs)
  have s0: "is_shuffle (sh k)" using Cons.prems(1)[of 0] by simp
  have sr: "\<And>j. j < length qs \<Longrightarrow> is_shuffle (sh (k + 1 + j))"
    using Cons.prems(1) by (metis add_Suc_right add_Suc_shift Suc_less_eq length_Cons plus_1_eq_Suc add.commute)
  from Cons.prems(2) consider "n \<in> set (q_notes d (sh k) q idc beat)"
    | "n \<in> set (all_notes d sh (k + 1) qs (idc + 1 + n_distractors d q) (beat + 10))" by auto
  then show ?case
  proof cases
    case 1 then show ?thesis using q_notes_bounds[OF s0] by blast
  next
    case 2 then show ?thesis using Cons.IH[OF sr] by blast
  qed
qed

lemma all_notes_unresolved:
  "n \<in> set (all_notes d sh k qs idc beat) \<Longrightarrow> \<not> hit n \<and> \<not> missed n"
  by (induction qs arbitrary: k idc beat) (auto dest: q_notes_unresolved)

lemma all_notes_time_ge:
  "n \<in> set (all_notes d sh k qs idc beat) \<Longrightarrow> beat * BEAT_TIME \<le> n_time n"
proof (induction qs arbitrary: k idc beat)
  case Nil
  then show ?case by simp
next
  case (Cons q qs)
  from Cons.prems consider "n \<in> set (q_notes d (sh k) q idc beat)"
    | "n \<in> set (all_notes d sh (k + 1) qs (idc + 1 + n_distractors d q) (beat + 10))" by auto
  then show ?case
  proof cases
    case 1 then show ?thesis by (simp add: q_notes_time)
  next
    case 2
    then have "(beat + 10) * BEAT_TIME \<le> n_time n" by (rule Cons.IH)
    moreover have "beat * BEAT_TIME \<le> (beat + 10) * BEAT_TIME"
      using BEAT_TIME_pos by (simp add: algebra_simps)
    ultimately show ?thesis by linarith
  qed
qed

lemma all_notes_slots_distinct:
  "(\<And>j. j < length qs \<Longrightarrow> is_shuffle (sh (k + j))) \<Longrightarrow>
     distinct (map slot (all_notes d sh k qs idc beat))"
proof (induction qs arbitrary: k idc beat)
  case Nil
  then show ?case by simp
next
  case (Cons q qs)
  let ?A = "q_notes d (sh k) q idc beat"
  let ?B = "all_notes d sh (k + 1) qs (idc + 1 + n_distractors d q) (beat + 10)"
  have s0: "is_shuffle (sh k)" using Cons.prems(1)[of 0] by simp
  have sr: "\<And>j. j < length qs \<Longrightarrow> is_shuffle (sh (k + 1 + j))"
    using Cons.prems(1) by (metis add_Suc_right add_Suc_shift Suc_less_eq length_Cons plus_1_eq_Suc add.commute)
  have dB: "distinct (map slot ?B)" by (rule Cons.IH[OF sr])
  have "distinct (map lineIndex ?A)" by (rule q_notes_lanes_distinct[OF s0])
  then have dA: "distinct (map slot ?A)"
    by (metis (no_types, lifting) distinct_map inj_on_def slot_def snd_conv)
  have "slot a \<noteq> slot b" if "a \<in> set ?A" "b \<in> set ?B" for a b
  proof -
    have "n_time a = beat * BEAT_TIME" using that(1) by (rule q_notes_time)
    moreover have "(beat + 10) * BEAT_TIME \<le> n_time b" using that(2) by (rule all_notes_time_ge)
    moreover have "beat * BEAT_TIME < (beat + 10) * BEAT_TIME"
      using BEAT_TIME_pos by (simp add: algebra_simps)
    ultimately show ?thesis by (auto simp: slot_def)
  qed
  then have "slot ` set ?A \<inter> slot ` set ?B = {}" by blast
  with dA dB show ?case by simp
qed

lemma distinct_map_sort_key:
  "distinct (map f (sort_key g xs)) = distinct (map f xs)"
proof -
  have "mset (map f (sort_key g xs)) = mset (map f xs)" by simp
  then show ?thesis by (rule mset_eq_imp_distinct_iff)
qed

lemma chart_slots_distinct:
  "(\<And>k. k < length cur \<Longrightarrow> is_shuffle (sh k)) \<Longrightarrow> distinct (map slot (generateChartFrom cur sh d))"
  using all_notes_slots_distinct[of cur sh 0 d 0 8]
  by (simp add: generateChartFrom_unfold distinct_map_sort_key)

lemma chart_bounds:
  "(\<And>k. k < length cur \<Longrightarrow> is_shuffle (sh k)) \<Longrightarrow> n \<in> set (generateChartFrom cur sh d)
     \<Longrightarrow> lineIndex n < 4 \<and> lineLayer n < 2"
  using all_notes_bounds[of cur sh 0 n d 0 8]
  by (simp add: generateChartFrom_unfold)

lemma chart_unresolved:
  "n \<in> set (generateChartFrom cur sh d) \<Longrightarrow> \<not> hit n \<and> \<not> missed n"
  using all_notes_unresolved[of n d sh 0 cur 0 8]
  by (simp add: generateChartFrom_unfold)

text \<open>
  Claim C10. Whatever the difficulty, when every shuffle returns the four lane indices in
  some order, every note of the chart made by \<open>generateDemoChart\<close> has its lane in
  \<open>{0,1,2,3}\<close> and its layer in \<open>{0,1}\<close>, so both coordinate lookups of the collision
  test and of the note renderer are in range, and two notes with the same arrival time
  are in different lanes.
\<close>

theorem generateDemoChart_lanes_in_bounds:
  assumes "\<And>k. k < length PHRASE_CURRICULUM \<Longrightarrow> is_shuffle (shuffled k)"
  shows "(\<forall>n \<in> set (generateDemoChart shuffled d).
            lineIndex n \<in> {0, 1, 2, 3} \<and> lineLayer n \<in> {0, 1} \<and>
            lineIndex n < length LANE_X_POSITIONS \<and> lineLayer n < length LAYER_Y_POSITIONS) \<and>
         (\<forall>i j. i < j \<and> j < length (generateDemoChart shuffled d) \<and>
                n_time (generateDemoChart shuffled d ! i) = n_time (generateDemoChart shuffled d ! j)
                \<longrightarrow> lineIndex (generateDemoChart shuffled d ! i) \<noteq> lineIndex (generateDemoChart shuffled d ! j))"
proof (intro conjI ballI allI impI)
  fix n assume "n \<in> set (generateDemoChart shuffled d)"
  then have b: "lineIndex n < 4 \<and> lineLayer n < 2"
    using chart_bounds[of PHRASE_CURRICULUM shuffled n d] assms by (simp add: generateDemoChart_def)
  then show "lineIndex n \<in> {0, 1, 2, 3}" by auto
  from b show "lineLayer n \<in> {0, 1}" by auto
  from b show "lineIndex n < length LANE_X_POSITIONS" by (simp add: LANE_X_POSITIONS_def)
  from b show "lineLayer n < length LAYER_Y_POSITIONS" by (simp add: LAYER_Y_POSITIONS_def)
next
  fix i j
  let ?c = "generateDemoChart shuffled d"
  assume a: "i < j \<and> j < length ?c \<and> n_time (?c ! i) = n_time (?c ! j)"
  have "distinct (map slot ?c)"
    using chart_slots_distinct[of PHRASE_CURRICULUM shuffled d] assms by (simp add: generateDemoChart_def)
  then have "map slot ?c ! i \<noteq> map slot ?c ! j"
    using a nth_eq_iff_index_eq[of "map slot ?c" i j] by auto
  then show "lineIndex (?c ! i) \<noteq> lineIndex (?c ! j)"
    using a by (simp add: slot_def)
qed

text \<open>
  With the shuffle that always returns \<open>[2,0,3,1]\<close> and difficulty 1 the demo chart has
  45 notes, all with both coordinates in range.
\<close>

theorem generateDemoChart_lanes_in_bounds_witness:
  "is_shuffle [2, 0, 3, 1] \<and>
   length (generateDemoChart (\<lambda>k. [2, 0, 3, 1]) 1) = 45 \<and>
   list_all (\<lambda>n. lineIndex n < length LANE_X_POSITIONS \<and> lineLayer n < length LAYER_Y_POSITIONS)
     (generateDemoChart (\<lambda>k. [2, 0, 3, 1]) 1)"
proof -
  have h: "is_shuffle [2, 0, 3, 1]" by (simp add: is_shuffle_def)
  have l: "length (generateDemoChart (\<lambda>k. [2, 0, 3, 1]) 1) = 45"
    by (simp add: generateDemoChart_def generateChartFrom_unfold PHRASE_CURRICULUM_def
          length_q_notes n_distractors_def)
  show ?thesis
    using h l generateDemoChart_lanes_in_bounds[of "\<lambda>k. [2, 0, 3, 1]" 1, OF h]
    by (simp add: list_all_iff)
qed

lemma n_distractors_one: "length (distractors q) = 3 \<Longrightarrow> n_distractors 1 q = 2"
  by (simp add: n_distractors_def)

text \<open>
  Claim C5, amended. At difficulty 1 the distractor count is \<open>min 3 (1 + \<lfloor>1\<rfloor>) = 2\<close>: a
  curriculum of one question with three distractors yields exactly three notes, the
  correct answer followed by the first two distractors, all with the arrival time of beat
  8 and in pairwise different lanes.
\<close>

theorem one_question_difficulty_1_three_notes:
  assumes "length (distractors q) = 3" and "is_shuffle (shuffled 0)"
  shows "length (generateChartFrom [q] shuffled 1) = 3 \<and>
         map isCorrect (generateChartFrom [q] shuffled 1) = [True, False, False] \<and>
         map n_text (generateChartFrom [q] shuffled 1) = [correct q, distractors q ! 0, distractors q ! 1] \<and>
         map n_time (generateChartFrom [q] shuffled 1) = [8 * BEAT_TIME, 8 * BEAT_TIME, 8 * BEAT_TIME] \<and>
         distinct (map lineIndex (generateChartFrom [q] shuffled 1))"
proof -
  have u: "[0..<2] = [0, Suc 0]" by (simp add: upt_conv_Cons)
  have c: "generateChartFrom [q] shuffled 1 =
        [correct_note q (shuffled 0) (8 * BEAT_TIME) 0,
         distractor_note q (shuffled 0) (8 * BEAT_TIME) (Suc 0) 0,
         distractor_note q (shuffled 0) (8 * BEAT_TIME) (Suc (Suc 0)) (Suc 0)]"
    by (simp add: generateChartFrom_unfold q_notes_def n_distractors_one[OF assms(1)] u
          correct_note_def distractor_note_def)
  have "distinct (map lineIndex (q_notes 1 (shuffled 0) q 0 8))"
    by (rule q_notes_lanes_distinct[OF assms(2)])
  then have "distinct (map lineIndex (generateChartFrom [q] shuffled 1))"
    by (simp add: c q_notes_def n_distractors_one[OF assms(1)] u)
  then show ?thesis
    by (simp add: c correct_note_def distractor_note_def)
qed

text \<open>
  The chart of the first curriculum entry under the shuffle \<open>[2,0,3,1]\<close>.
\<close>

theorem one_question_difficulty_1_three_notes_witness:
  "length (distractors WENT_question) = 3 \<and> is_shuffle [2, 0, 3, 1] \<and>
   length (generateChartFrom [WENT_question] (\<lambda>k. [2, 0, 3, 1]) 1) = 3 \<and>
   map n_text (generateChartFrom [WENT_question] (\<lambda>k. [2, 0, 3, 1]) 1) = [''WENT'', ''GO'', ''GONE''] \<and>
   map lineIndex (generateChartFrom [WENT_question] (\<lambda>k. [2, 0, 3, 1]) 1) = [2, 0, 3]"
proof -
  have h1: "length (distractors WENT_question) = 3" by (simp add: WENT_question_def)
  have h2: "is_shuffle ((\<lambda>k. [2, 0, 3, 1]) (0::nat))" by (simp add: is_shuffle_def)
  have u: "[0..<2] = [0, Suc 0]" by (simp add: upt_conv_Cons)
  have "map lineIndex (generateChartFrom [WENT_question] (\<lambda>k. [2, 0, 3, 1]) 1) = [2, 0, 3]"
    by (simp add: generateChartFrom_unfold q_notes_def n_distractors_one[OF h1] u
          correct_note_def distractor_note_def)
  then show ?thesis
    using h1 h2 one_question_difficulty_1_three_notes[of WENT_question "\<lambda>k. [2, 0, 3, 1]"]
    by (simp add: WENT_question_def)
qed

text \<open>
  Claim C5 as stated fails: for the first curriculum entry at difficulty 1 the chart has
  three notes, not two.
\<close>

theorem one_question_difficulty_1_not_two_notes:
  "length (generateChartFrom [WENT_question] (\<lambda>k. [0, 1, 2, 3]) 1) = 3 \<and>
   length (generateChartFrom [WENT_question] (\<lambda>k. [0, 1, 2, 3]) 1) \<noteq> 2"
proof -
  have u: "[0..<2] = [0, Suc 0]" by (simp add: upt_conv_Cons)
  have "n_distractors 1 WENT_question = 2" by (simp add: n_distractors_def WENT_question_def)
  then show ?thesis
    by (simp add: generateChartFrom_unfold q_notes_def u)
qed

lemma one_question_chart:
  assumes "length (distractors q) = 3"
  shows "generateChartFrom [q] shuffled 1 =
        [correct_note q (shuffled 0) (8 * BEAT_TIME) 0,
         distractor_note q (shuffled 0) (8 * BEAT_TIME) (Suc 0) 0,
         distractor_note q (shuffled 0) (8 * BEAT_TIME) (Suc (Suc 0)) (Suc 0)]"
proof -
  have u: "[0..<2] = [0, Suc 0]" by (simp add: upt_conv_Cons)
  show ?thesis
    by (simp add: generateChartFrom_unfold q_notes_def n_distractors_one[OF assms] u
          correct_note_def distractor_note_def)
qed












section \<open>Scoring: properties\<close>

lemma handleNoteHit_inv: "app_inv a \<Longrightarrow> 0 \<le> m \<Longrightarrow> app_inv (handleNoteHit m n g a)"
  by (auto simp: app_inv_def handleNoteHit_def Let_def)

lemma handleNoteMiss_inv: "app_inv a \<Longrightarrow> app_inv (handleNoteMiss n a)"
  by (auto simp: app_inv_def handleNoteMiss_def Let_def)

lemma app_inv_multiplier_nonneg: "app_inv a \<Longrightarrow> 0 \<le> multiplier a"
  by (auto simp: app_inv_def split: if_splits)

lemma update_instruction_inv: "app_inv a \<Longrightarrow> app_inv (update_instruction sc a)"
  by (auto simp: app_inv_def update_instruction_def Let_def)

lemma endGame_inv: "app_inv a \<Longrightarrow> app_inv (endGame v a)"
  by (auto simp: app_inv_def endGame_def)

lemma fire_timeout_inv: "app_inv a \<Longrightarrow> app_inv (fire_timeout a)"
  by (auto simp: app_inv_def fire_timeout_def endGame_def split: list.splits)

lemma startGame_inv: "app_inv a \<Longrightarrow> app_inv (startGame c p ch a)"
  by (auto simp: app_inv_def startGame_def Let_def)

lemma collide_note_app_inv:
  "app_inv (snd w) \<Longrightarrow> 0 \<le> m \<Longrightarrow> app_inv (snd (collide_note t hands m i w))"
  by (cases w)
     (auto simp: collide_note_def Let_def handleNoteHit_inv handleNoteMiss_inv
           split: option.splits)

lemma collide_loop_app_inv:
  "app_inv (snd w) \<Longrightarrow> 0 \<le> m \<Longrightarrow> app_inv (snd (collide_loop t hands m n w))"
  by (induction n arbitrary: w) (simp_all add: collide_note_app_inv)

lemma useFrame_app_inv: "app_inv (snd w) \<Longrightarrow> app_inv (snd (useFrame t ended hands w))"
  by (cases w)
     (auto simp: useFrame_def Let_def endGame_inv
           intro!: collide_loop_app_inv update_instruction_inv app_inv_multiplier_nonneg)

lemma set_status_inv: "app_inv a \<Longrightarrow> app_inv (a\<lparr>gameStatus := v\<rparr>)"
  by (simp add: app_inv_def)

lemma step_app_inv: "app_inv (snd w) \<Longrightarrow> app_inv (snd (step e w))"
proof (cases w)
  case (Pair sc a)
  assume inv: "app_inv (snd w)"
  show ?thesis
  proof (cases e)
    case (Frame t ended hands)
    then show ?thesis using useFrame_app_inv[OF inv] by simp
  qed (use inv Pair in \<open>simp_all add: fire_timeout_inv startGame_inv set_status_inv\<close>)
qed

lemma initial_app_inv: "app_inv (snd (initial_world c))"
  by (simp add: initial_world_def app_inv_def)

lemma fold_step_app_inv: "app_inv (snd w) \<Longrightarrow> app_inv (snd (fold step evs w))"
  by (induction evs arbitrary: w) (simp_all add: step_app_inv)

lemma run_app_inv: "app_inv (snd (run evs (initial_world c)))"
  unfolding run_def by (rule fold_step_app_inv[OF initial_app_inv])

text \<open>
  Claim C2. In every state a session can reach, health is between 0 and 100 and the score
  is not negative. The handlers keep it so: the hit handler leaves health in range and
  adds \<open>100 * m\<close> to the score for a correct hit and nothing otherwise, where the closed-over
  \<open>m\<close> is the non-negative multiplier of a reachable state; the miss handler leaves health
  in range and the score alone.
\<close>

theorem health_and_score_in_range:
  "0 \<le> health (snd (run evs (initial_world c))) \<and>
   health (snd (run evs (initial_world c))) \<le> 100 \<and>
   0 \<le> score (snd (run evs (initial_world c))) \<and>
   0 \<le> 100 * multiplier (snd (run evs (initial_world c))) \<and>
   (\<forall>m n g. health (handleNoteHit m n g (snd (run evs (initial_world c)))) \<in> {0..100} \<and>
            score (handleNoteHit m n g (snd (run evs (initial_world c)))) =
              score (snd (run evs (initial_world c))) + (if g \<and> isCorrect n then 100 * m else 0)) \<and>
   (\<forall>n. health (handleNoteMiss n (snd (run evs (initial_world c)))) \<in> {0..100} \<and>
        score (handleNoteMiss n (snd (run evs (initial_world c)))) = score (snd (run evs (initial_world c))))"
proof -
  let ?a = "snd (run evs (initial_world c))"
  have inv: "app_inv ?a" by (rule run_app_inv)
  have r: "0 \<le> health ?a" "health ?a \<le> 100" "0 \<le> score ?a"
    using inv by (simp_all add: app_inv_def)
  have m: "0 \<le> 100 * multiplier ?a"
    using app_inv_multiplier_nonneg[OF inv] by simp
  have h: "health (handleNoteHit m n g ?a) \<in> {0..100} \<and>
           score (handleNoteHit m n g ?a) = score ?a + (if g \<and> isCorrect n then 100 * m else 0)" for m n g
    using r by (simp add: handleNoteHit_def Let_def)
  have ms: "health (handleNoteMiss n ?a) \<in> {0..100} \<and> score (handleNoteMiss n ?a) = score ?a" for n
    using r by (simp add: handleNoteMiss_def Let_def)
  show ?thesis using r m h ms by blast
qed

text \<open>
  Claim C9. A Miss event for a note that is not the correct answer leaves the whole
  application state as it was: score, combo, multiplier, health, status, and the queue of
  pending end-of-game callbacks.
\<close>

theorem miss_of_wrong_note_no_effect:
  assumes "\<not> isCorrect note"
  shows "handleNoteMiss note app = app"
  using assms by (simp add: handleNoteMiss_def)

text \<open>
  A missed distractor at score 300, combo 7, health 40.
\<close>

theorem miss_of_wrong_note_no_effect_witness:
  "\<not> isCorrect (sample_note False) \<and>
   handleNoteMiss (sample_note False) (sample_app 300 7 40) = sample_app 300 7 40"
proof -
  have h: "\<not> isCorrect (sample_note False)" by (simp add: sample_note_def)
  show ?thesis using h miss_of_wrong_note_no_effect[OF h] by simp
qed

text \<open>
  Claim C7. A Miss event for a correct note resets the combo to 0 and the multiplier to 1
  and takes 15 from health, clamped at 0; the wrong-hit penalty is 10. At health 10 the
  miss leaves health 0 and, once the scheduled callback has run, the status is
  \<open>GAME_OVER\<close>.
\<close>

theorem miss_of_correct_note:
  assumes "isCorrect note"
  shows "combo (handleNoteMiss note app) = 0 \<and>
         multiplier (handleNoteMiss note app) = 1 \<and>
         health (handleNoteMiss note app) = max 0 (health app - 15) \<and>
         health (handleNoteHit m other False app) = max 0 (health app - 10) \<and>
         (health app = 10 \<longrightarrow>
            health (handleNoteMiss note app) = 0 \<and>
            gameStatus (run_timeouts (handleNoteMiss note app)) = GAME_OVER)"
  using assms
  by (simp add: handleNoteMiss_def handleNoteHit_def Let_def run_timeouts_def endGame_def max_def)

text \<open>
  A missed correct note at health 10, during play.
\<close>

theorem miss_of_correct_note_witness:
  "isCorrect (sample_note True) \<and>
   health (sample_app 300 3 10) = 10 \<and>
   combo (handleNoteMiss (sample_note True) (sample_app 300 3 10)) = 0 \<and>
   health (handleNoteMiss (sample_note True) (sample_app 300 3 10)) = 0 \<and>
   gameStatus (sample_app 300 3 10) = PLAYING \<and>
   gameStatus (run_timeouts (handleNoteMiss (sample_note True) (sample_app 300 3 10))) = GAME_OVER"
proof -
  have h: "isCorrect (sample_note True)" by (simp add: sample_note_def)
  show ?thesis
    using h miss_of_correct_note[OF h, of "sample_app 300 3 10" 1 "sample_note False"]
    by (simp add: sample_app_def)
qed

lemma correct_hit_sample:
  "correct_hit (sample_app s c h) =
     sample_app (s + 100 * (if c > 10 then 4 else if c > 5 then 2 else 1)) (c + 1) (min 100 (h + 5))"
  by (simp add: correct_hit_def handleNoteHit_def sample_note_def sample_app_def Let_def)

lemma ten_correct_hits: "(correct_hit ^^ 10) (sample_app 0 0 100) = sample_app 1400 10 100"
  by (simp add: eval_nat_numeral correct_hit_sample)

lemma frame_hit_correct:
  "snd (useFrame (8 * BEAT_TIME) False striking_hands (contact_scene, sample_app 1400 10 100)) =
     (sample_app 1600 11 100)\<lparr>instruction := ''Yesterday, I ___ to the store.''\<rparr>"
  apply (simp add: useFrame_def Let_def sample_app_def)
  apply (simp add: spawn_loop.simps contact_scene_def update_instruction_def sample_note_def Let_def)
  apply (simp add: collide_note_def Let_def PLAYER_Z_def MISS_Z_def NOTE_SPEED_def lookup_def
      LANE_X_POSITIONS_def LAYER_Y_POSITIONS_def LANE_WIDTH_def striking_hands_def
      distanceTo_def vlength_def handleNoteHit_def power2_eq_square)
  done

text \<open>
  Claim C4, evaluated. Ten correct hits from a fresh session lead to combo 10 with
  multiplier 2. The next correct hit makes the combo 11 and the multiplier 4, and adds
  \<open>100 * 2 = 200\<close> to the score, not 400: the score update reads the multiplier the
  callback closed over, not the one just set. The same is seen through a whole frame in
  which the left hand strikes the correct note.
\<close>

theorem hit_at_combo_10_adds_200:
  "(correct_hit ^^ 10) (sample_app 0 0 100) = sample_app 1400 10 100 \<and>
   combo (sample_app 1400 10 100) = 10 \<and>
   multiplier (sample_app 1400 10 100) = 2 \<and>
   combo (correct_hit (sample_app 1400 10 100)) = 11 \<and>
   multiplier (correct_hit (sample_app 1400 10 100)) = 4 \<and>
   score (correct_hit (sample_app 1400 10 100)) = score (sample_app 1400 10 100) + 200 \<and>
   score (correct_hit (sample_app 1400 10 100)) \<noteq> score (sample_app 1400 10 100) + 400 \<and>
   combo (snd (useFrame (8 * BEAT_TIME) False striking_hands (contact_scene, sample_app 1400 10 100))) = 11 \<and>
   multiplier (snd (useFrame (8 * BEAT_TIME) False striking_hands (contact_scene, sample_app 1400 10 100))) = 4 \<and>
   score (snd (useFrame (8 * BEAT_TIME) False striking_hands (contact_scene, sample_app 1400 10 100))) = 1400 + 200"
  by (simp add: ten_correct_hits correct_hit_sample frame_hit_correct) (simp add: sample_app_def)

section \<open>The frame loop: invariants\<close>

lemma spawn_loop_inv: "scene_inv sc \<Longrightarrow> scene_inv (spawn_loop t sc)"
proof (induction t sc rule: spawn_loop.induct)
  case (1 t sc)
  show ?case
  proof (cases "nextNoteIndex sc < length (notesState sc) \<and>
                n_time (notesState sc ! nextNoteIndex sc) - spawnAheadTime \<le> t")
    case False
    then show ?thesis using "1.prems" by (subst spawn_loop.simps) (auto simp: Let_def)
  next
    case True
    let ?sc' = "sc\<lparr>activeNotes := activeNotes sc @ [nextNoteIndex sc], nextNoteIndex := nextNoteIndex sc + 1\<rparr>"
    have "scene_inv ?sc'"
      using "1.prems" True by (fastforce simp: scene_inv_def)
    then have "scene_inv (spawn_loop t ?sc')"
      using "1.IH" True by (simp add: Let_def)
    then show ?thesis using True by (subst spawn_loop.simps) (simp add: Let_def)
  qed
qed

lemma spawn_loop_notes [simp]: "notesState (spawn_loop t sc) = notesState sc"
proof (induction t sc rule: spawn_loop.induct)
  case (1 t sc)
  show ?case
    using "1.IH" by (subst spawn_loop.simps) (auto simp: Let_def)
qed

lemma splice1_facts:
  assumes "distinct xs" "i < length xs"
  shows "distinct (splice1 i xs)" "set (splice1 i xs) = set xs - {xs ! i}"
        "length (splice1 i xs) = length xs - 1"
proof -
  have xs: "xs = take i xs @ xs ! i # drop (Suc i) xs"
    using assms(2) by (simp add: id_take_nth_drop)
  have d: "distinct (take i xs @ xs ! i # drop (Suc i) xs)" using assms(1) xs by simp
  then show "distinct (splice1 i xs)" by (simp add: splice1_def)
  have "set xs = set (take i xs) \<union> {xs ! i} \<union> set (drop (Suc i) xs)"
    by (subst xs) auto
  moreover have "xs ! i \<notin> set (take i xs)" "xs ! i \<notin> set (drop (Suc i) xs)" using d by auto
  ultimately show "set (splice1 i xs) = set xs - {xs ! i}" by (auto simp: splice1_def)
  show "length (splice1 i xs) = length xs - 1" using assms(2) by (auto simp: splice1_def)
qed

lemma outcome_same [simp]: "iteration_outcome sc i (sc, app)"
  by (simp add: iteration_outcome_def)

lemma outcome_missed [simp]:
  "\<not> hit (notesState sc ! (activeNotes sc ! i)) \<Longrightarrow> \<not> missed (notesState sc ! (activeNotes sc ! i)) \<Longrightarrow>
   iteration_outcome sc i
     (sc\<lparr>notesState := (notesState sc)[activeNotes sc ! i :=
              (notesState sc ! (activeNotes sc ! i))\<lparr>missed := True\<rparr>],
         activeNotes := splice1 i (activeNotes sc)\<rparr>, app)"
  unfolding iteration_outcome_def unresolved_def resolve_at_def
  by (intro disjI2 conjI exI[of _ "(notesState sc ! (activeNotes sc ! i))\<lparr>missed := True\<rparr>"]) simp_all

lemma outcome_hit [simp]:
  "\<not> hit (notesState sc ! (activeNotes sc ! i)) \<Longrightarrow> \<not> missed (notesState sc ! (activeNotes sc ! i)) \<Longrightarrow>
   iteration_outcome sc i
     (sc\<lparr>notesState := (notesState sc)[activeNotes sc ! i :=
              (notesState sc ! (activeNotes sc ! i))\<lparr>hit := True, hitTime := Some t\<rparr>],
         activeNotes := splice1 i (activeNotes sc)\<rparr>, app)"
  unfolding iteration_outcome_def unresolved_def resolve_at_def
  by (intro disjI2 conjI exI[of _ "(notesState sc ! (activeNotes sc ! i))\<lparr>hit := True, hitTime := Some t\<rparr>"]) simp_all

lemma collide_note_outcome: "iteration_outcome sc i (collide_note t hands m i (sc, app))"
  by (simp add: collide_note_def Let_def split: option.split)

lemma resolve_at_inv:
  assumes inv: "scene_inv sc" and i: "i < length (activeNotes sc)" and n: "hit note' \<noteq> missed note'"
  shows "scene_inv (resolve_at i note' sc)"
proof -
  let ?k = "activeNotes sc ! i"
  have d: "distinct (activeNotes sc)" using inv by (simp add: scene_inv_def)
  have k: "?k < nextNoteIndex sc" using inv i by (simp add: scene_inv_def)
  have sp: "distinct (splice1 i (activeNotes sc))"
           "set (splice1 i (activeNotes sc)) = set (activeNotes sc) - {?k}"
    using splice1_facts[OF d i] by simp_all
  have other: "(notesState sc)[?k := note'] ! j = notesState sc ! j" if "j \<noteq> ?k" for j
    using that by simp
  have a: "\<forall>j \<in> set (splice1 i (activeNotes sc)).
             j < nextNoteIndex sc \<and> unresolved ((notesState sc)[?k := note'] ! j)"
    using inv sp(2) other by (auto simp: scene_inv_def)
  have b: "\<forall>j. nextNoteIndex sc \<le> j \<and> j < length (notesState sc) \<longrightarrow>
             unresolved ((notesState sc)[?k := note'] ! j)"
    using inv k other by (auto simp: scene_inv_def)
  have c: "\<forall>j < length (notesState sc).
             \<not> (hit ((notesState sc)[?k := note'] ! j) \<and> missed ((notesState sc)[?k := note'] ! j))"
  proof (intro allI impI)
    fix j assume j: "j < length (notesState sc)"
    show "\<not> (hit ((notesState sc)[?k := note'] ! j) \<and> missed ((notesState sc)[?k := note'] ! j))"
    proof (cases "j = ?k")
      case True
      then show ?thesis using j n by auto
    next
      case False
      then show ?thesis using inv j other by (auto simp: scene_inv_def)
    qed
  qed
  show ?thesis
    using inv sp(1) a b c by (simp add: scene_inv_def resolve_at_def)
qed

lemma collide_note_inv:
  assumes "scene_inv (fst w)" "i < length (activeNotes (fst w))"
  shows "scene_inv (fst (collide_note t hands m i w))"
proof (cases w)
  case (Pair sc app)
  have "iteration_outcome sc i (collide_note t hands m i (sc, app))" by (rule collide_note_outcome)
  then show ?thesis
    using assms Pair resolve_at_inv[of sc i] by (auto simp: iteration_outcome_def)
qed

lemma collide_note_length:
  assumes "i < length (activeNotes (fst w))"
  shows "i \<le> length (activeNotes (fst (collide_note t hands m i w)))"
proof (cases w)
  case (Pair sc app)
  have "iteration_outcome sc i (collide_note t hands m i (sc, app))" by (rule collide_note_outcome)
  then show ?thesis
    using assms Pair by (auto simp: iteration_outcome_def resolve_at_def splice1_def)
qed

lemma collide_loop_inv:
  "scene_inv (fst w) \<Longrightarrow> n \<le> length (activeNotes (fst w)) \<Longrightarrow>
     scene_inv (fst (collide_loop t hands m n w))"
proof (induction n arbitrary: w)
  case 0
  then show ?case by simp
next
  case (Suc n)
  have i: "n < length (activeNotes (fst w))" using Suc.prems(2) by simp
  show ?case
    using Suc.IH[OF collide_note_inv[OF Suc.prems(1) i] collide_note_length[OF i]] by simp
qed

text \<open>A resolved note is never written again.\<close>

lemma collide_note_stable:
  assumes "\<not> unresolved (notesState (fst w) ! k)"
  shows "notesState (fst (collide_note t hands m i w)) ! k = notesState (fst w) ! k"
proof (cases w)
  case (Pair sc app)
  have "iteration_outcome sc i (collide_note t hands m i (sc, app))" by (rule collide_note_outcome)
  then consider "fst (collide_note t hands m i (sc, app)) = sc"
    | note' where "unresolved (notesState sc ! (activeNotes sc ! i))"
        "fst (collide_note t hands m i (sc, app)) = resolve_at i note' sc"
    by (auto simp: iteration_outcome_def)
  then show ?thesis
  proof cases
    case 1
    then show ?thesis using Pair by simp
  next
    case 2
    have "k \<noteq> activeNotes sc ! i" using assms Pair 2(1) by auto
    then show ?thesis using Pair 2(2) by (simp add: resolve_at_def)
  qed
qed

lemma collide_note_notes_length [simp]:
  "length (notesState (fst (collide_note t hands m i w))) = length (notesState (fst w))"
proof (cases w)
  case (Pair sc app)
  have "iteration_outcome sc i (collide_note t hands m i (sc, app))" by (rule collide_note_outcome)
  then show ?thesis
    using Pair by (auto simp: iteration_outcome_def resolve_at_def)
qed

lemma collide_loop_stable:
  "\<not> unresolved (notesState (fst w) ! k) \<Longrightarrow>
     notesState (fst (collide_loop t hands m n w)) ! k = notesState (fst w) ! k"
proof (induction n arbitrary: w)
  case 0
  then show ?case by simp
next
  case (Suc n)
  have e: "notesState (fst (collide_note t hands m n w)) ! k = notesState (fst w) ! k"
    by (rule collide_note_stable[OF Suc.prems])
  then have "\<not> unresolved (notesState (fst (collide_note t hands m n w)) ! k)"
    using Suc.prems by simp
  from Suc.IH[OF this] e show ?case by simp
qed

lemma collide_loop_notes_length [simp]:
  "length (notesState (fst (collide_loop t hands m n w))) = length (notesState (fst w))"
  by (induction n arbitrary: w) simp_all

lemma useFrame_inv: "scene_inv (fst w) \<Longrightarrow> scene_inv (fst (useFrame t ended hands w))"
  by (cases w) (simp add: useFrame_def Let_def collide_loop_inv spawn_loop_inv)

lemma useFrame_stable:
  "\<not> unresolved (notesState (fst w) ! k) \<Longrightarrow>
     notesState (fst (useFrame t ended hands w)) ! k = notesState (fst w) ! k"
  by (cases w) (simp add: useFrame_def Let_def collide_loop_stable)

lemma useFrame_notes_length [simp]:
  "length (notesState (fst (useFrame t ended hands w))) = length (notesState (fst w))"
  by (cases w) (simp add: useFrame_def Let_def)

lemma step_scene_inv: "scene_inv (fst w) \<Longrightarrow> scene_inv (fst (step e w))"
  by (cases w; cases e) (simp_all add: useFrame_inv del: step.simps(1), simp add: useFrame_inv)

lemma step_stable:
  "\<not> unresolved (notesState (fst w) ! k) \<Longrightarrow> notesState (fst (step e w)) ! k = notesState (fst w) ! k"
  by (cases w; cases e) (simp_all add: useFrame_stable)

lemma step_notes_length [simp]: "length (notesState (fst (step e w))) = length (notesState (fst w))"
  by (cases w; cases e) simp_all

lemma fold_step_scene_inv: "scene_inv (fst w) \<Longrightarrow> scene_inv (fst (fold step evs w))"
  by (induction evs arbitrary: w) (simp_all add: step_scene_inv)

lemma fold_step_stable:
  "\<not> unresolved (notesState (fst w) ! k) \<Longrightarrow>
     notesState (fst (fold step evs w)) ! k = notesState (fst w) ! k"
proof (induction evs arbitrary: w)
  case Nil
  then show ?case by simp
next
  case (Cons e evs)
  have e: "notesState (fst (step e w)) ! k = notesState (fst w) ! k"
    by (rule step_stable[OF Cons.prems])
  then have "\<not> unresolved (notesState (fst (step e w)) ! k)" using Cons.prems by simp
  from Cons.IH[OF this] e show ?case by simp
qed

lemma fold_step_notes_length [simp]:
  "length (notesState (fst (fold step evs w))) = length (notesState (fst w))"
  by (induction evs arbitrary: w) simp_all

lemma initial_scene_inv:
  "(\<And>n. n \<in> set c \<Longrightarrow> \<not> hit n \<and> \<not> missed n) \<Longrightarrow> scene_inv (fst (initial_world c))"
  by (simp add: initial_world_def scene_inv_def unresolved_def)

section \<open>Sessions: properties\<close>

lemma demo_world_note0:
  "missed (notesState (fst demo_world) ! 0) \<and> \<not> hit (notesState (fst demo_world) ! 0)"
proof -
  have l: "length (distractors WENT_question) = 3" by (simp add: WENT_question_def)
  show ?thesis
    unfolding demo_world_def run_def one_question_chart[OF l]
    apply (simp add: initial_world_def startGame_def useFrame_def Let_def)
    apply (simp add: spawn_loop.simps correct_note_def distractor_note_def spawnAheadTime_def
        SPAWN_Z_def PLAYER_Z_def NOTE_SPEED_def BEAT_TIME_def SONG_BPM_def Let_def)
    apply (simp add: eval_nat_numeral collide_note_def Let_def splice1_def MISS_Z_def
        PLAYER_Z_def NOTE_SPEED_def)
    done
qed

lemma collide_note_resolved:
  "hit (notesState (fst w) ! (activeNotes (fst w) ! i)) \<or> missed (notesState (fst w) ! (activeNotes (fst w) ! i))
     \<Longrightarrow> collide_note t hands m i w = w"
  by (cases w) (auto simp: collide_note_def Let_def)

lemma run_scene_inv:
  "scene_inv (fst (run evs (initial_world (generateChartFrom cur sh d))))"
  unfolding run_def
  by (rule fold_step_scene_inv, rule initial_scene_inv) (rule chart_unresolved)

text \<open>
  Claim C1. In every state a session on a generated chart can reach, no note is both hit
  and missed; a note that is hit or missed is no longer referenced by the active set, and
  whatever happens afterwards leaves the note object exactly as it is. An iteration of the
  collision loop that meets a resolved note returns the world unchanged, since the test of
  \<^verbatim>\<open>note.hit || note.missed\<close> comes first.
\<close>

theorem note_resolved_at_most_once:
  "(\<forall>k < length (generateChartFrom cur sh d).
      \<not> (hit (notesState (fst (run evs (initial_world (generateChartFrom cur sh d)))) ! k) \<and>
         missed (notesState (fst (run evs (initial_world (generateChartFrom cur sh d)))) ! k)) \<and>
      (hit (notesState (fst (run evs (initial_world (generateChartFrom cur sh d)))) ! k) \<or>
       missed (notesState (fst (run evs (initial_world (generateChartFrom cur sh d)))) ! k) \<longrightarrow>
         k \<notin> set (activeNotes (fst (run evs (initial_world (generateChartFrom cur sh d))))) \<and>
         (\<forall>evs'. notesState (fst (run evs' (run evs (initial_world (generateChartFrom cur sh d))))) ! k =
                 notesState (fst (run evs (initial_world (generateChartFrom cur sh d)))) ! k))) \<and>
   (\<forall>t hands m i w.
      hit (notesState (fst w) ! (activeNotes (fst w) ! i)) \<or>
      missed (notesState (fst w) ! (activeNotes (fst w) ! i)) \<longrightarrow>
        collide_note t hands m i w = w)"
proof (intro conjI allI impI)
  let ?w = "run evs (initial_world (generateChartFrom cur sh d))"
  have inv: "scene_inv (fst ?w)" by (rule run_scene_inv)
  have len: "length (notesState (fst ?w)) = length (generateChartFrom cur sh d)"
    by (simp add: run_def initial_world_def)
  fix k assume k: "k < length (generateChartFrom cur sh d)"
  show "\<not> (hit (notesState (fst ?w) ! k) \<and> missed (notesState (fst ?w) ! k))"
    using inv k len by (simp add: scene_inv_def)
  assume r: "hit (notesState (fst ?w) ! k) \<or> missed (notesState (fst ?w) ! k)"
  show "k \<notin> set (activeNotes (fst ?w))"
    using inv r by (auto simp: scene_inv_def unresolved_def)
  fix evs'
  have "\<not> unresolved (notesState (fst ?w) ! k)" using r by (auto simp: unresolved_def)
  then show "notesState (fst (run evs' ?w)) ! k = notesState (fst ?w) ! k"
    unfolding run_def[of evs'] by (rule fold_step_stable)
next
  fix t hands m i and w :: World
  assume "hit (notesState (fst w) ! (activeNotes (fst w) ! i)) \<or>
          missed (notesState (fst w) ! (activeNotes (fst w) ! i))"
  then show "collide_note t hands m i w = w" by (rule collide_note_resolved)
qed

text \<open>
  After the late frame the correct note of the one-question chart is missed and not hit,
  it has left the active set, and a further frame does not change it.
\<close>

theorem note_resolved_at_most_once_witness:
  "0 < length (generateChartFrom [WENT_question] (\<lambda>k. [2, 0, 3, 1]) 1) \<and>
   missed (notesState (fst demo_world) ! 0) \<and>
   \<not> hit (notesState (fst demo_world) ! 0) \<and>
   0 \<notin> set (activeNotes (fst demo_world)) \<and>
   notesState (fst (run [Frame 1001 False no_hands] demo_world)) ! 0 = notesState (fst demo_world) ! 0"
proof -
  have l: "length (distractors WENT_question) = 3" by (simp add: WENT_question_def)
  have h0: "(0::nat) < length (generateChartFrom [WENT_question] (\<lambda>k. [2, 0, 3, 1]) 1)"
    by (simp add: one_question_chart[OF l])
  have h1: "missed (notesState (fst demo_world) ! 0)" "\<not> hit (notesState (fst demo_world) ! 0)"
    using demo_world_note0 by simp_all
  show ?thesis
    using h0 h1
      note_resolved_at_most_once[of "[WENT_question]" "\<lambda>k. [2, 0, 3, 1]" 1
        "[CameraReady, StartGame True True [], Frame 1000 False no_hands]"]
    unfolding demo_world_def[symmetric]
    by blast
qed

text \<open>
  Claim C8. For an unresolved active note inside the interception band whose required
  hand is tracked within the hit radius 1.0 of the note, a hand speed below 0.5 makes the
  iteration return the world unchanged: the note keeps its state and stays in the active
  set, no handler is called, and score, combo, multiplier and health are as before.
\<close>

theorem slow_contact_ignored:
  assumes "\<not> hit (notesState sc ! (activeNotes sc ! i))"
    and "\<not> missed (notesState sc ! (activeNotes sc ! i))"
    and "PLAYER_Z - 15 / 10 < PLAYER_Z - (n_time (notesState sc ! (activeNotes sc ! i)) - t) * NOTE_SPEED"
    and "PLAYER_Z - (n_time (notesState sc ! (activeNotes sc ! i)) - t) * NOTE_SPEED < PLAYER_Z + 1"
    and "(if n_type (notesState sc ! (activeNotes sc ! i)) = Left then left hands else right hands) = Some hp"
    and "lineIndex (notesState sc ! (activeNotes sc ! i)) < length LANE_X_POSITIONS"
    and "lineLayer (notesState sc ! (activeNotes sc ! i)) < length LAYER_Y_POSITIONS"
    and "distanceTo hp
           (Vector3 (LANE_X_POSITIONS ! lineIndex (notesState sc ! (activeNotes sc ! i)))
                    (LAYER_Y_POSITIONS ! lineLayer (notesState sc ! (activeNotes sc ! i)))
                    (PLAYER_Z - (n_time (notesState sc ! (activeNotes sc ! i)) - t) * NOTE_SPEED)) < 1"
    and "vlength (if n_type (notesState sc ! (activeNotes sc ! i)) = Left
                  then leftVelocity hands else rightVelocity hands) < 5 / 10"
  shows "collide_note t hands m i (sc, app) = (sc, app)"
proof -
  have z: "\<not> PLAYER_Z - (n_time (notesState sc ! (activeNotes sc ! i)) - t) * NOTE_SPEED > MISS_Z"
    using assms(4) by (simp add: PLAYER_Z_def MISS_Z_def)
  show ?thesis
    using assms z by (simp add: collide_note_def Let_def lookup_def)
qed

lemma sqrt_square_rat: "0 \<le> r \<Longrightarrow> sqrt (r * r) = (r::real)"
  by (simp add: real_sqrt_mult)

text \<open>
  The scenario of the claim: distance 0.3, speed 0.2, the note exactly at the player's
  plane.
\<close>

theorem slow_contact_ignored_witness:
  "distanceTo (Vector3 (- (15 / 10)) 1 0) (Vector3 (LANE_X_POSITIONS ! 0) (LAYER_Y_POSITIONS ! 0) 0) = 3 / 10 \<and>
   vlength (Vector3 (2 / 10) 0 0) = 2 / 10 \<and>
   collide_note (8 * BEAT_TIME) slow_hands 1 0 (contact_scene, sample_app 0 0 100)
     = (contact_scene, sample_app 0 0 100)"
proof -
  have d: "distanceTo (Vector3 (- (15 / 10)) 1 0) (Vector3 (LANE_X_POSITIONS ! 0) (LAYER_Y_POSITIONS ! 0) 0) = 3 / 10"
    using sqrt_square_rat[of "3 / 10"]
    by (simp add: distanceTo_def LANE_X_POSITIONS_def LAYER_Y_POSITIONS_def LANE_WIDTH_def power2_eq_square)
  have v: "vlength (Vector3 (2 / 10) 0 0) = 2 / 10"
    using sqrt_square_rat[of "2 / 10"] by (simp add: vlength_def power2_eq_square)
  have "collide_note (8 * BEAT_TIME) slow_hands 1 0 (contact_scene, sample_app 0 0 100)
     = (contact_scene, sample_app 0 0 100)"
  proof (rule slow_contact_ignored[where hp = "Vector3 (- (15 / 10)) 1 0"])
    show "distanceTo (Vector3 (- (15 / 10)) 1 0)
           (Vector3 (LANE_X_POSITIONS ! lineIndex (notesState contact_scene ! (activeNotes contact_scene ! 0)))
                    (LAYER_Y_POSITIONS ! lineLayer (notesState contact_scene ! (activeNotes contact_scene ! 0)))
                    (PLAYER_Z - (n_time (notesState contact_scene ! (activeNotes contact_scene ! 0)) - 8 * BEAT_TIME) * NOTE_SPEED)) < 1"
      using d by (simp add: contact_scene_def sample_note_def PLAYER_Z_def)
    show "vlength (if n_type (notesState contact_scene ! (activeNotes contact_scene ! 0)) = Left
                  then leftVelocity slow_hands else rightVelocity slow_hands) < 5 / 10"
      using v by (simp add: contact_scene_def sample_note_def slow_hands_def)
  qed (simp_all add: contact_scene_def sample_note_def slow_hands_def PLAYER_Z_def NOTE_SPEED_def
         LANE_X_POSITIONS_def LAYER_Y_POSITIONS_def)
  with d v show ?thesis by simp
qed

lemma endGame_idem: "endGame v (endGame v b) = endGame v b"
  by (simp add: endGame_def)

lemma fold_endGame_all_False:
  "set ts \<subseteq> {False} \<Longrightarrow> ts \<noteq> [] \<Longrightarrow> fold endGame ts b = endGame False b"
proof (induction ts arbitrary: b)
  case Nil
  then show ?case by simp
next
  case (Cons v ts)
  then have v: "v = False" by simp
  show ?case
  proof (cases "ts = []")
    case True
    then show ?thesis using v by simp
  next
    case False
    have "set ts \<subseteq> {False}" using Cons.prems(1) by simp
    then have "fold endGame ts (endGame False b) = endGame False (endGame False b)"
      using False by (rule Cons.IH)
    then show ?thesis using v by (simp only: fold_simps endGame_idem)
  qed
qed

lemma funpow_endGame: "(endGame False ^^ Suc k) b = endGame False b"
  by (induction k) (simp_all add: endGame_def)

lemma penalty_at_zero:
  assumes "app_inv a" "health a = 0"
  shows "handleNoteHit m n False a = a\<lparr>timeouts := timeouts a @ [False]\<rparr>"
    and "isCorrect n \<Longrightarrow> handleNoteMiss n a = a\<lparr>timeouts := timeouts a @ [False]\<rparr>"
proof -
  have c: "combo a = 0" "multiplier a = 1" using assms by (simp_all add: app_inv_def)
  show "handleNoteHit m n False a = a\<lparr>timeouts := timeouts a @ [False]\<rparr>"
    using c assms(2) by (simp add: handleNoteHit_def Let_def)
  show "isCorrect n \<Longrightarrow> handleNoteMiss n a = a\<lparr>timeouts := timeouts a @ [False]\<rparr>"
    using c assms(2) by (simp add: handleNoteMiss_def Let_def)
qed

lemma run_timeouts_one_more:
  assumes "app_inv a" "timeouts a \<noteq> []"
  shows "run_timeouts (a\<lparr>timeouts := timeouts a @ [False]\<rparr>) = run_timeouts a"
proof -
  have s: "set (timeouts a) \<subseteq> {False}" using assms(1) by (simp add: app_inv_def)
  have "fold endGame (timeouts a @ [False]) (a\<lparr>timeouts := []\<rparr>) = endGame False (a\<lparr>timeouts := []\<rparr>)"
    by (rule fold_endGame_all_False) (use s in auto)
  moreover have "fold endGame (timeouts a) (a\<lparr>timeouts := []\<rparr>) = endGame False (a\<lparr>timeouts := []\<rparr>)"
    by (rule fold_endGame_all_False[OF s assms(2)])
  ultimately show ?thesis by (simp add: run_timeouts_def)
qed

lemma penalty_to_zero_ends:
  "health (handleNoteHit m n False a) = 0 \<Longrightarrow>
     gameStatus (run_timeouts (handleNoteHit m n False a)) = GAME_OVER"
  "isCorrect n \<Longrightarrow> health (handleNoteMiss n a) = 0 \<Longrightarrow>
     gameStatus (run_timeouts (handleNoteMiss n a)) = GAME_OVER"
  by (auto simp: handleNoteHit_def handleNoteMiss_def Let_def run_timeouts_def endGame_def
           split: if_splits)

text \<open>
  Claim C3, amended. In a state a session can reach with health 0, a further wrong hit or
  miss of a correct note changes nothing of score, combo, multiplier, health or status; it
  only schedules one more \<^verbatim>\<open>endGame(false)\<close>, and when a callback was already pending the
  state after all callbacks have run is the same as without the further penalty. Whenever
  a penalty leaves health at 0, the status after the scheduled callbacks is \<open>GAME_OVER\<close>.
  Running \<^verbatim>\<open>endGame(false)\<close> several times gives the state that running it once gives.
\<close>

theorem game_over_trigger_idempotent:
  "(health (snd (run evs (initial_world c))) = 0 \<longrightarrow>
      (\<forall>m n. handleNoteHit m n False (snd (run evs (initial_world c))) =
              (snd (run evs (initial_world c)))\<lparr>timeouts := timeouts (snd (run evs (initial_world c))) @ [False]\<rparr>) \<and>
      (\<forall>n. isCorrect n \<longrightarrow>
            handleNoteMiss n (snd (run evs (initial_world c))) =
              (snd (run evs (initial_world c)))\<lparr>timeouts := timeouts (snd (run evs (initial_world c))) @ [False]\<rparr>) \<and>
      (timeouts (snd (run evs (initial_world c))) \<noteq> [] \<longrightarrow>
         (\<forall>m n. run_timeouts (handleNoteHit m n False (snd (run evs (initial_world c)))) =
                 run_timeouts (snd (run evs (initial_world c)))) \<and>
         (\<forall>n. isCorrect n \<longrightarrow>
               run_timeouts (handleNoteMiss n (snd (run evs (initial_world c)))) =
                 run_timeouts (snd (run evs (initial_world c)))))) \<and>
   (\<forall>m n. health (handleNoteHit m n False (snd (run evs (initial_world c)))) = 0 \<longrightarrow>
           gameStatus (run_timeouts (handleNoteHit m n False (snd (run evs (initial_world c))))) = GAME_OVER) \<and>
   (\<forall>n. isCorrect n \<and> health (handleNoteMiss n (snd (run evs (initial_world c)))) = 0 \<longrightarrow>
         gameStatus (run_timeouts (handleNoteMiss n (snd (run evs (initial_world c))))) = GAME_OVER) \<and>
   (\<forall>k b. (endGame False ^^ Suc k) b = endGame False b)"
proof -
  let ?a = "snd (run evs (initial_world c))"
  have inv: "app_inv ?a" by (rule run_app_inv)
  have p1: "handleNoteHit m n False ?a = ?a\<lparr>timeouts := timeouts ?a @ [False]\<rparr>"
    if "health ?a = 0" for m n
    by (rule penalty_at_zero(1)[OF inv that])
  have p2: "handleNoteMiss n ?a = ?a\<lparr>timeouts := timeouts ?a @ [False]\<rparr>"
    if "health ?a = 0" "isCorrect n" for n
    by (rule penalty_at_zero(2)[OF inv that])
  have p3: "run_timeouts (handleNoteHit m n False ?a) = run_timeouts ?a"
    if "health ?a = 0" "timeouts ?a \<noteq> []" for m n
    using p1[OF that(1)] run_timeouts_one_more[OF inv that(2)] by simp
  have p4: "run_timeouts (handleNoteMiss n ?a) = run_timeouts ?a"
    if "health ?a = 0" "timeouts ?a \<noteq> []" "isCorrect n" for n
    using p2[OF that(1) that(3)] run_timeouts_one_more[OF inv that(2)] by simp
  show ?thesis
    using p1 p2 p3 p4 penalty_to_zero_ends funpow_endGame by blast
qed

lemma seven_correct_app:
  "snd seven_correct_world =
     \<lparr>score = 0, combo = 0, multiplier = 1, health = 0, gameStatus = PLAYING,
      instruction = ''Yesterday, I ___ to the store.'', chart = [], timeouts = [False]\<rparr>"
  unfolding seven_correct_world_def run_def
  apply (simp add: initial_world_def startGame_def useFrame_def Let_def eval_nat_numeral)
  apply (simp add: spawn_loop.simps sample_note_def spawnAheadTime_def
      SPAWN_Z_def PLAYER_Z_def NOTE_SPEED_def BEAT_TIME_def SONG_BPM_def Let_def)
  apply (simp add: eval_nat_numeral collide_note_def Let_def splice1_def MISS_Z_def
      PLAYER_Z_def NOTE_SPEED_def update_instruction_def handleNoteMiss_def)
  done

text \<open>
  After seven missed correct notes health is 0 and one callback is pending; a wrong hit
  then adds a second callback and nothing else, and the final state is the same.
\<close>

theorem game_over_trigger_idempotent_witness:
  "health (snd seven_correct_world) = 0 \<and>
   timeouts (snd seven_correct_world) = [False] \<and>
   handleNoteHit 1 (sample_note False) False (snd seven_correct_world) =
     (snd seven_correct_world)\<lparr>timeouts := [False, False]\<rparr> \<and>
   run_timeouts (handleNoteHit 1 (sample_note False) False (snd seven_correct_world)) =
     run_timeouts (snd seven_correct_world) \<and>
   gameStatus (run_timeouts (snd seven_correct_world)) = GAME_OVER"
proof -
  have h: "health (snd seven_correct_world) = 0" "timeouts (snd seven_correct_world) = [False]"
    by (simp_all add: seven_correct_app)
  have g: "gameStatus (run_timeouts (snd seven_correct_world)) = GAME_OVER"
    by (simp add: seven_correct_app run_timeouts_def endGame_def)
  have e: "timeouts (snd seven_correct_world) @ [False] = [False, False]"
    "timeouts (snd seven_correct_world) \<noteq> []" by (simp_all add: h)
  show ?thesis
    using h g e
      game_over_trigger_idempotent[of "[CameraReady, StartGame True True [], Frame 1000 False no_hands]"
        "replicate 7 (sample_note True)"]
    unfolding seven_correct_world_def[symmetric]
    by metis
qed

lemma frame_two_wrong_hits:
  "health (snd (useFrame (8 * BEAT_TIME) False striking_hands (two_wrong_scene, sample_app 0 0 10))) = 0 \<and>
   timeouts (snd (useFrame (8 * BEAT_TIME) False striking_hands (two_wrong_scene, sample_app 0 0 10))) = [False, False]"
  apply (simp add: useFrame_def Let_def sample_app_def)
  apply (simp add: spawn_loop.simps two_wrong_scene_def wrong_note_def update_instruction_def sample_note_def Let_def)
  apply (simp add: eval_nat_numeral collide_note_def Let_def PLAYER_Z_def MISS_Z_def NOTE_SPEED_def lookup_def
      LANE_X_POSITIONS_def LAYER_Y_POSITIONS_def LANE_WIDTH_def striking_hands_def splice1_def
      distanceTo_def vlength_def handleNoteHit_def power2_eq_square)
  done

text \<open>
  Claim C3 as stated fails: at health 10 a wrong hit brings health to 0 and schedules
  \<^verbatim>\<open>endGame(false)\<close>; a second wrong hit in the same tick, at health 0, schedules it again.
  One frame in which the left hand strikes two distractors does exactly this.
\<close>

theorem second_penalty_schedules_endGame_again:
  "health (handleNoteHit 1 (sample_note False) False (sample_app 0 0 10)) = 0 \<and>
   timeouts (handleNoteHit 1 (sample_note False) False (sample_app 0 0 10)) = [False] \<and>
   timeouts (handleNoteHit 1 (sample_note False) False
              (handleNoteHit 1 (sample_note False) False (sample_app 0 0 10))) = [False, False] \<and>
   handleNoteHit 1 (sample_note False) False (handleNoteHit 1 (sample_note False) False (sample_app 0 0 10))
     \<noteq> handleNoteHit 1 (sample_note False) False (sample_app 0 0 10) \<and>
   health (snd (useFrame (8 * BEAT_TIME) False striking_hands (two_wrong_scene, sample_app 0 0 10))) = 0 \<and>
   timeouts (snd (useFrame (8 * BEAT_TIME) False striking_hands (two_wrong_scene, sample_app 0 0 10))) = [False, False]"
  using frame_two_wrong_hits
  by (simp add: handleNoteHit_def sample_app_def sample_note_def Let_def)

end
